theory Spec2Isabelle
  imports Main "HOL-Library.Sublist"
begin

section \<open>Journal envelopes: the Go package \<open>envelope\<close>\<close>

text \<open>
  The package reads a journaled e-mail: an outer message whose text body lists delivery
  metadata line by line and whose single non-text part is the original message. Two
  versions of the package are in the repository: \<^verbatim>\<open>envelope.go\<close>, which hashes and
  flattens the parts of the wrapped message, and an older file that converts the first
  attachment to text through a Tika server. \<open>splitHeader\<close> and \<open>appendUniq\<close> are the same
  in both; \<open>ParseBody\<close> and \<open>Parse\<close> differ, and the older ones carry the suffix \<open>_tika\<close>.

  Go strings and byte slices are \<^typ>\<open>string\<close> (a list of bytes). A Go \<^verbatim>\<open>error\<close> is
  the string of its message; a nil error is \<^term>\<open>None\<close>.
\<close>

subsection \<open>The functions of package \<open>strings\<close> that the code calls\<close>

text \<open>
  \<open>Index\<close> finds the first occurrence of a separator; \<open>cut\<close> returns the text before
  and after it.
\<close>

fun cut :: "string \<Rightarrow> string \<Rightarrow> (string \<times> string) option" where
  "cut [] sep = (if sep = [] then Some ([], []) else None)"
| "cut (c # cs) sep =
     (if prefix sep (c # cs) then Some ([], drop (length sep) (c # cs))
      else map_option (\<lambda>(a, b). (c # a, b)) (cut cs sep))"

definition Contains :: "string \<Rightarrow> string \<Rightarrow> bool" where
  "Contains s sep = (cut s sep \<noteq> None)"

text \<open>
  \<open>SplitN s sep n\<close> for \<open>n > 0\<close> and a non-empty separator: at most \<open>n\<close> pieces, the last
  one the unsplit remainder. \<open>Split\<close> is \<open>SplitN\<close> with no limit; the library caps the
  number of pieces at \<open>len(s) + 1\<close>, which no split by a non-empty separator reaches.
\<close>

fun SplitN :: "string \<Rightarrow> string \<Rightarrow> nat \<Rightarrow> string list" where
  "SplitN s sep 0 = []"
| "SplitN s sep (Suc 0) = [s]"
| "SplitN s sep (Suc (Suc n)) =
     (case cut s sep of
        None \<Rightarrow> [s]
      | Some (a, b) \<Rightarrow> a # SplitN b sep (Suc n))"

definition Split :: "string \<Rightarrow> string \<Rightarrow> string list" where
  "Split s sep = SplitN s sep (Suc (length s))"

definition TrimPrefix :: "string \<Rightarrow> string \<Rightarrow> string" where
  "TrimPrefix s p = (if prefix p s then drop (length p) s else s)"

definition TrimSuffix :: "string \<Rightarrow> string \<Rightarrow> string" where
  "TrimSuffix s p = (if suffix p s then take (length s - length p) s else s)"

text \<open>
  \<open>ToLower\<close> has a fast path for strings of ASCII bytes, which maps \<open>A\<close>..\<open>Z\<close> to
  \<open>a\<close>..\<open>z\<close>. Any other string goes through the Unicode case tables, which are not part
  of this repository: they are the parameter \<open>U\<close>.
\<close>

definition lowerByte :: "char \<Rightarrow> char" where
  "lowerByte c =
     (let n = (of_char c :: nat) in if 65 \<le> n \<and> n \<le> 90 then char_of (n + 32) else c)"

definition isASCII :: "string \<Rightarrow> bool" where
  "isASCII s = list_all (\<lambda>c. (of_char c :: nat) < 128) s"

definition ToLower :: "(string \<Rightarrow> string) \<Rightarrow> string \<Rightarrow> string" where
  "ToLower U s = (if isASCII s then map lowerByte s else U s)"

text \<open>
  What the case tables guarantee: lower-casing a lower-cased string changes nothing.
\<close>

definition stable :: "(string \<Rightarrow> string) \<Rightarrow> bool" where
  "stable U = (\<forall>s. ToLower U (ToLower U s) = ToLower U s)"

text \<open>The ASCII-only table, used where a concrete table is needed.\<close>

definition asciiTable :: "string \<Rightarrow> string" where
  "asciiTable s = map lowerByte s"

subsection \<open>\<open>bufio.Scanner\<close> over the body\<close>

text \<open>
  The successive values of \<open>scanner.Text()\<close> with the default split function: lines end
  at a newline, one trailing carriage return is dropped, and a last line without newline
  counts when it is not empty. A line of 65536 bytes or more does not fit the
  scanner's buffer: \<open>Scan\<close> then returns false and the loop ends, and \<open>ParseBody\<close> does not
  look at the scanner's error.
\<close>

definition dropCR :: "string \<Rightarrow> string" where
  "dropCR s = (if s \<noteq> [] \<and> last s = CHR 0x0D then butlast s else s)"

fun scanFrom :: "string \<Rightarrow> string \<Rightarrow> string list" where
  "scanFrom cur [] =
     (if cur = [] \<or> 65536 \<le> length cur then [] else [dropCR (rev cur)])"
| "scanFrom cur (c # cs) =
     (if c = CHR 0x0A
      then (if 65536 \<le> length cur then [] else dropCR (rev cur) # scanFrom [] cs)
      else scanFrom (c # cur) cs)"

definition scanTexts :: "string \<Rightarrow> string list" where
  "scanTexts b = scanFrom [] b"

subsection \<open>Metadata and the recipient lists\<close>

record Metadata =
  Sender :: string
  OnBehalfOf :: string
  Subject :: string
  MessageID :: string
  To :: "string list"
  CC :: "string list"
  BCC :: "string list"
  Timestamp :: "int option"

definition emptyMetadata :: Metadata where
  "emptyMetadata =
     \<lparr>Sender = [], OnBehalfOf = [], Subject = [], MessageID = [],
      To = [], CC = [], BCC = [], Timestamp = None\<rparr>"

definition splitHeader :: "string \<Rightarrow> string \<times> string \<times> bool" where
  "splitHeader h =
     (let kv = SplitN h '': '' 2
      in if length kv < 2 then ([], [], False) else (kv ! 0, kv ! 1, True))"

text \<open>
  \<open>appendUniq\<close>: the inner loop looks for the lower-cased candidate in \<open>start\<close> as it is
  at that moment; the outer loop appends the candidate when the inner loop found nothing.
\<close>

fun found :: "string \<Rightarrow> string list \<Rightarrow> bool" where
  "found m [] = False"
| "found m (s # start) = (if m = s then True else found m start)"

fun appendUniq :: "(string \<Rightarrow> string) \<Rightarrow> string list \<Rightarrow> string list \<Rightarrow> string list" where
  "appendUniq U start [] = start"
| "appendUniq U start (m # rest) =
     (let m' = ToLower U m
      in if found m' start then appendUniq U start rest
         else appendUniq U (start @ [m']) rest)"

text \<open>One iteration of the scanning loop of \<open>ParseBody\<close> in \<^verbatim>\<open>envelope.go\<close>.\<close>

definition header :: "(string \<Rightarrow> string) \<Rightarrow> Metadata \<Rightarrow> string \<Rightarrow> string \<Rightarrow> Metadata" where
  "header U m k v =
     (if k = ''Sender'' then m\<lparr>Sender := ToLower U v\<rparr>
      else if k = ''On-Behalf-Of'' then m\<lparr>OnBehalfOf := v\<rparr>
      else if k = ''Subject'' then m\<lparr>Subject := v\<rparr>
      else if k = ''Message-Id'' then m\<lparr>MessageID := TrimSuffix (TrimPrefix v ''<'') ''>''\<rparr>
      else if k = ''Recipient'' \<or> k = ''To'' then
        (if Contains v '', Forwarded: ''
         then m\<lparr>To := appendUniq U (To m) (Split v '', Forwarded: '')\<rparr>
         else m\<lparr>To := appendUniq U (To m) (Split v '', Expanded: '')\<rparr>)
      else if k = ''Cc'' then
        (if Contains v '', Forwarded: ''
         then m\<lparr>CC := appendUniq U (CC m) (Split v '', Forwarded: '')\<rparr>
         else m\<lparr>CC := appendUniq U (CC m) (Split v '', Expanded: '')\<rparr>)
      else if k = ''Bcc'' then
        (if Contains v '', Forwarded: ''
         then m\<lparr>CC := appendUniq U (CC m) (Split v '', Forwarded: '')\<rparr>
         else m\<lparr>BCC := appendUniq U (BCC m) (Split v '', Expanded: '')\<rparr>)
      else m)"

definition scanLine :: "(string \<Rightarrow> string) \<Rightarrow> Metadata \<Rightarrow> string \<Rightarrow> Metadata" where
  "scanLine U m line =
     (case splitHeader line of (k, v, ok) \<Rightarrow> if \<not> ok then m else header U m k v)"

definition ParseBody :: "(string \<Rightarrow> string) \<Rightarrow> string \<Rightarrow> Metadata \<times> string option" where
  "ParseBody U b = (foldl (scanLine U) emptyMetadata (scanTexts b), None)"

text \<open>The same loop in the older file: one separator, no dialect test.\<close>

definition header_tika :: "(string \<Rightarrow> string) \<Rightarrow> Metadata \<Rightarrow> string \<Rightarrow> string \<Rightarrow> Metadata" where
  "header_tika U m k v =
     (if k = ''Sender'' then m\<lparr>Sender := ToLower U v\<rparr>
      else if k = ''On-Behalf-Of'' then m\<lparr>OnBehalfOf := v\<rparr>
      else if k = ''Subject'' then m\<lparr>Subject := v\<rparr>
      else if k = ''Message-Id'' then m\<lparr>MessageID := TrimSuffix (TrimPrefix v ''<'') ''>''\<rparr>
      else if k = ''Recipient'' \<or> k = ''To'' then
        m\<lparr>To := appendUniq U (To m) (Split v '' Expanded: '')\<rparr>
      else if k = ''Cc'' then m\<lparr>CC := appendUniq U (CC m) (Split v '' Expanded: '')\<rparr>
      else if k = ''Bcc'' then m\<lparr>BCC := appendUniq U (BCC m) (Split v '' Expanded: '')\<rparr>
      else m)"

definition scanLine_tika :: "(string \<Rightarrow> string) \<Rightarrow> Metadata \<Rightarrow> string \<Rightarrow> Metadata" where
  "scanLine_tika U m line =
     (case splitHeader line of (k, v, ok) \<Rightarrow> if \<not> ok then m else header_tika U m k v)"

definition ParseBody_tika :: "(string \<Rightarrow> string) \<Rightarrow> string \<Rightarrow> Metadata \<times> string option" where
  "ParseBody_tika U b = (foldl (scanLine_tika U) emptyMetadata (scanTexts b), None)"

text \<open>\<open>strconv.Itoa\<close>: the decimal digits of an integer, with a sign when negative.\<close>

fun decimal :: "nat \<Rightarrow> string" where
  "decimal n =
     (if n < 10 then [char_of (48 + n)] else decimal (n div 10) @ [char_of (48 + n mod 10)])"

declare decimal.simps [simp del]

definition Itoa :: "int \<Rightarrow> string" where
  "Itoa i = (if i < 0 then ''-'' @ decimal (nat (- i)) else decimal (nat i))"

subsection \<open>Decoded MIME parts\<close>

text \<open>
  A part as the MIME library hands it out: file name, content type, raw content and
  children. The code reads the content of a part again as a message
  (\<open>mail.ReadMessage\<close>, then \<open>enmime.ParseMIMEBody\<close>); both calls are functions of the
  content alone, and \<open>asMessage\<close> records what they return for this part: the read
  fails, the read succeeds and the decoding fails, or both succeed and give a body.
  Nesting is finite, as it is in a finite message.
\<close>

datatype mimepart =
  MIMEPart (FileName: string) (ContentType: string) (Content: string)
    (asMessage: reread) (children: "mimepart list")
and reread = ReadFails string | DecodeFails string | Decoded mimebody
and mimebody =
  MIMEBody (Text: string) (Root: mimepart) (OtherParts: "mimepart list")
    (Attachments: "mimepart list")

text \<open>
  Modelled from the spec: \<open>enmime.DepthMatchAll\<close> belongs to the MIME library, which is
  not in the repository. The spec describes it as the traversal that yields the parts
  of the tree under a part that satisfy a predicate, in pre-order; the part itself is
  visited first.
\<close>

fun preorder :: "mimepart \<Rightarrow> mimepart list" where
  "preorder (MIMEPart f t c r ks) = MIMEPart f t c r ks # concat (map preorder ks)"

definition DepthMatchAll :: "mimepart \<Rightarrow> (mimepart \<Rightarrow> bool) \<Rightarrow> mimepart list" where
  "DepthMatchAll p matcher = filter matcher (preorder p)"

text \<open>
  How a call ends: it returns, or the process exits (\<open>log.Fatalln\<close> writes its line and
  calls \<open>os.Exit(1)\<close>), or the runtime panics.
\<close>

datatype 'a outcome = Returns 'a | Exits string | Panics string

text \<open>The measure for the recursion of \<open>extractParts\<close>: the largest part of a list.\<close>

definition biggest :: "mimepart list \<Rightarrow> nat" where
  "biggest ps = foldr max (map size ps) 0"

lemma biggest_simps [simp]:
  "biggest [] = 0" "biggest (p # ps) = max (size p) (biggest ps)"
  by (simp_all add: biggest_def)

lemma biggest_mem: "p \<in> set ps \<Longrightarrow> size p \<le> biggest ps"
  by (induction ps) auto

lemma biggest_le: "(\<And>p. p \<in> set ps \<Longrightarrow> size p \<le> n) \<Longrightarrow> biggest ps \<le> n"
  by (induction ps) auto

lemma size_preorder: "q \<in> set (preorder p) \<Longrightarrow> size q \<le> size p"
proof (induction p arbitrary: q rule: preorder.induct)
  case (1 f t c r ks)
  show ?case
  proof (cases "q = MIMEPart f t c r ks")
    case True
    then show ?thesis by simp
  next
    case False
    with "1.prems" obtain k where k: "k \<in> set ks" "q \<in> set (preorder k)"
      by auto
    then have "size q \<le> size k"
      using "1.IH" by blast
    moreover have "size k \<le> size_list size ks"
      using k(1) by (simp add: size_list_estimation')
    ultimately show ?thesis by simp
  qed
qed

lemma biggest_preorder: "biggest (preorder p) = size p"
proof (rule antisym)
  show "biggest (preorder p) \<le> size p"
    by (rule biggest_le) (rule size_preorder)
  have "p \<in> set (preorder p)"
    by (cases p) simp
  then show "size p \<le> biggest (preorder p)"
    by (rule biggest_mem)
qed

lemma size_Root: "asMessage p = Decoded b \<Longrightarrow> size (Root b) < size p"
  by (cases p; cases b) simp

text \<open>
  \<open>extractParts\<close> and its loop \<open>forParts\<close> over the traversal. \<open>ch\<close> is what has been
  sent on the channel so far, in sending order; the buffered channel is a queue, so
  this is the order in which the collector receives.
\<close>

function extractParts :: "mimepart \<Rightarrow> mimepart list \<Rightarrow> mimepart list outcome"
  and forParts :: "mimepart list \<Rightarrow> mimepart list \<Rightarrow> mimepart list outcome" where
  "extractParts part ch = forParts (DepthMatchAll part (\<lambda>part. True)) ch"
| "forParts [] ch = Returns ch"
| "forParts (p # ps) ch =
     (if ContentType p = ''message/rfc822'' then
        (case asMessage p of
           ReadFails err \<Rightarrow> Exits (''reading message/rfc822 in extractParts: '' @ err)
         | DecodeFails err \<Rightarrow> forParts ps ch
         | Decoded p2 \<Rightarrow>
             (case extractParts (Root p2) ch of
                Returns ch' \<Rightarrow> forParts ps ch'
              | Exits line \<Rightarrow> Exits line
              | Panics line \<Rightarrow> Panics line))
      else if ContentType p = ''multipart/mixed'' then forParts ps ch
      else forParts ps (ch @ [p]))"
  by pat_completeness auto
termination
proof (relation "measures
    [\<lambda>x. case x of Inl (p, ch) \<Rightarrow> size p | Inr (ps, ch) \<Rightarrow> biggest ps,
     \<lambda>x. case x of Inl (p, ch) \<Rightarrow> 1 | Inr (ps, ch) \<Rightarrow> 0,
     \<lambda>x. case x of Inl (p, ch) \<Rightarrow> 0 | Inr (ps, ch) \<Rightarrow> length ps]", goal_cases)
  case 1
  show ?case by simp
next
  case (2 part ch)
  show ?case by (simp add: DepthMatchAll_def biggest_preorder)
next
  case (3 p ps ch err)
  show ?case by (simp add: max_def)
next
  case (4 p ps ch p2)
  then show ?case using size_Root[of p p2] by (simp add: max_def)
next
  case (5 p ps ch p2 ch')
  show ?case by (simp add: max_def)
next
  case (6 p ps ch)
  show ?case by (simp add: max_def)
next
  case (7 p ps ch)
  show ?case by (simp add: max_def)
qed

text \<open>
  The leaves the spec speaks of: the parts that are neither a \<open>message/rfc822\<close> wrapper
  nor a \<open>multipart/mixed\<close> container, through every re-wrapped message that decodes,
  in pre-order. \<open>fatal\<close> is the error of the first nested message, in the same order,
  that cannot be read.
\<close>

primrec leaves :: "mimepart \<Rightarrow> mimepart list"
  and leaves_reread :: "reread \<Rightarrow> mimepart list"
  and leaves_body :: "mimebody \<Rightarrow> mimepart list" where
  "leaves (MIMEPart f t c r ks) =
     (if t = ''message/rfc822'' then leaves_reread r
      else if t = ''multipart/mixed'' then []
      else [MIMEPart f t c r ks]) @ concat (map leaves ks)"
| "leaves_reread (ReadFails err) = []"
| "leaves_reread (DecodeFails err) = []"
| "leaves_reread (Decoded b) = leaves_body b"
| "leaves_body (MIMEBody text root others atts) = leaves root"

fun firstSome :: "'a option list \<Rightarrow> 'a option" where
  "firstSome [] = None"
| "firstSome (Some e # xs) = Some e"
| "firstSome (None # xs) = firstSome xs"

primrec fatal :: "mimepart \<Rightarrow> string option"
  and fatal_reread :: "reread \<Rightarrow> string option"
  and fatal_body :: "mimebody \<Rightarrow> string option" where
  "fatal (MIMEPart f t c r ks) =
     firstSome ((if t = ''message/rfc822'' then fatal_reread r else None) # map fatal ks)"
| "fatal_reread (ReadFails err) = Some err"
| "fatal_reread (DecodeFails err) = None"
| "fatal_reread (Decoded b) = fatal_body b"
| "fatal_body (MIMEBody text root others atts) = fatal root"

text \<open>What one visited part contributes, for the proofs about the loop.\<close>

definition own_leaves :: "mimepart \<Rightarrow> mimepart list" where
  "own_leaves p =
     (if ContentType p = ''message/rfc822'' then leaves_reread (asMessage p)
      else if ContentType p = ''multipart/mixed'' then [] else [p])"

definition own_fatal :: "mimepart \<Rightarrow> string option" where
  "own_fatal p =
     (if ContentType p = ''message/rfc822'' then fatal_reread (asMessage p) else None)"

definition fatalLine :: "string \<Rightarrow> string" where
  "fatalLine err = ''reading message/rfc822 in extractParts: '' @ err"

subsection \<open>\<open>Parse\<close> in \<^verbatim>\<open>envelope.go\<close>\<close>

text \<open>
  The input stream is what the library calls make of it: \<open>mail.ReadMessage\<close> fails
  (\<open>Inl\<close> the error) or gives a message, whose \<open>Date\<close> header and MIME body each
  parse or fail. The digest (\<open>sha256.Sum256\<close> printed in hexadecimal) is the parameter
  \<open>hex256\<close>.

  \<open>Parse\<close> has the named results \<open>(m, err)\<close>; a bare \<open>return\<close> before \<open>m\<close> is assigned
  returns no message. The parts sent on the channel are appended to \<open>Parts\<close> by a
  goroutine, in the order sent; \<open>Parts\<close> here is that list once the goroutine has
  received everything.
\<close>

record mailMessage =
  HeaderDate :: "string + int"
  ParseMIMEBody :: "string + mimebody"

record Part =
  PartFileName :: string
  PartContentType :: string
  PartSHA256 :: string
  PartContent :: string

record Message =
  MessageMetadata :: Metadata
  SHA256 :: string
  Body :: string
  Parts :: "Part list"

definition collect :: "(string \<Rightarrow> string) \<Rightarrow> mimepart \<Rightarrow> Part" where
  "collect hex256 p =
     \<lparr>PartFileName = FileName p, PartContentType = ContentType p,
      PartSHA256 = hex256 (Content p), PartContent = Content p\<rparr>"

definition countError :: "nat \<Rightarrow> string" where
  "countError n = ''Expected 1 MIME message in the envolope, but got '' @ Itoa (int n)"

definition Parse ::
  "(string \<Rightarrow> string) \<Rightarrow> (string \<Rightarrow> string) \<Rightarrow> string + mailMessage
     \<Rightarrow> (Message option \<times> string option) outcome" where
  "Parse U hex256 inp =
     (case inp of
        Inl err \<Rightarrow> Returns (None, Some err)
      | Inr env \<Rightarrow>
     (case HeaderDate env of
        Inl err \<Rightarrow> Returns (None, Some err)
      | Inr received \<Rightarrow>
     (case ParseMIMEBody env of
        Inl err \<Rightarrow> Returns (None, Some err)
      | Inr b \<Rightarrow>
     (case ParseBody U (Text b) of
        (md, Some err) \<Rightarrow> Returns (None, Some err)
      | (md, None) \<Rightarrow>
          if length (OtherParts b) \<noteq> 1
          then Returns (None, Some (countError (length (OtherParts b))))
          else
            (let md = md\<lparr>Timestamp := Some received\<rparr>;
                 h = hex256 (Content (OtherParts b ! 0))
             in case extractParts (OtherParts b ! 0) [] of
                  Returns ch \<Rightarrow>
                    Returns (Some \<lparr>MessageMetadata = md, SHA256 = h, Body = [],
                                   Parts = map (collect hex256) ch\<rparr>, None)
                | Exits line \<Rightarrow> Exits line
                | Panics line \<Rightarrow> Panics line)))))"

subsection \<open>\<open>Parse\<close> in the older file\<close>

text \<open>
  The older \<open>Parse\<close> reads the wrapped message itself and sends its first attachment
  to a Tika server. \<open>NewTika\<close> is the constructor of the client (\<open>Inl\<close> its error); a
  client is its \<open>Parse\<close> method, from content and content type to the text or an error.
  The test on the number of attachments assigns \<open>err\<close> and goes on; the next statement
  assigns \<open>err\<close> again. \<open>b2.Attachments[0]\<close> on an empty slice is a runtime panic.
\<close>

record Message_tika =
  Metadata_tika :: Metadata
  BodyText :: string

type_synonym tika = "string \<Rightarrow> string \<Rightarrow> string + string"

definition attachmentError :: "nat \<Rightarrow> string" where
  "attachmentError n = ''Expected at least one attachment, but got '' @ Itoa (int n)"

definition Parse_tika ::
  "(string \<Rightarrow> string) \<Rightarrow> (string \<Rightarrow> string + tika) \<Rightarrow> string + mailMessage
     \<Rightarrow> (Message_tika option \<times> string option) outcome" where
  "Parse_tika U NewTika inp =
     (case inp of
        Inl err \<Rightarrow> Returns (None, Some err)
      | Inr env \<Rightarrow>
     (case HeaderDate env of
        Inl err \<Rightarrow> Returns (None, Some err)
      | Inr received \<Rightarrow>
     (case ParseMIMEBody env of
        Inl err \<Rightarrow> Returns (None, Some err)
      | Inr b \<Rightarrow>
     (case ParseBody_tika U (Text b) of
        (md, Some err) \<Rightarrow> Returns (None, Some err)
      | (md, None) \<Rightarrow>
          if length (OtherParts b) \<noteq> 1
          then Returns (None, Some (countError (length (OtherParts b))))
          else
     (case asMessage (OtherParts b ! 0) of
        ReadFails err \<Rightarrow> Exits err
      | DecodeFails err \<Rightarrow> Returns (None, Some err)
      | Decoded b2 \<Rightarrow>
          (let err = (if length (Attachments b2) < 1
                      then Some (attachmentError (length (Attachments b))) else None)
           in case NewTika ''http://localhost:9998/tika'' of
                Inl err \<Rightarrow> Returns (None, Some err)
              | Inr t \<Rightarrow>
                  (case Attachments b2 of
                     [] \<Rightarrow> Panics ''index out of range''
                   | a # more_atts \<Rightarrow>
                       (case t (Content a) (ContentType a) of
                          Inl err \<Rightarrow> Returns (None, Some err)
                        | Inr data \<Rightarrow>
                            Returns (Some \<lparr>Metadata_tika = md\<lparr>Timestamp := Some received\<rparr>,
                                           BodyText = data\<rparr>, None)))))))))"

subsection \<open>Notions of the specification\<close>

text \<open>
  Two entries are equal case-insensitively when they are equal after lower-casing. A
  sequence is normalized when its entries are lower-cased and pairwise distinct.
\<close>

definition nodupCI :: "(string \<Rightarrow> string) \<Rightarrow> string list \<Rightarrow> bool" where
  "nodupCI U xs = distinct (map (ToLower U) xs)"

definition normalized :: "(string \<Rightarrow> string) \<Rightarrow> string list \<Rightarrow> bool" where
  "normalized U xs = (distinct xs \<and> list_all (\<lambda>e. ToLower U e = e) xs)"

text \<open>The separator of a recipient value: the Forwarded marker when present.\<close>

definition dialect :: "string \<Rightarrow> string" where
  "dialect v = (if Contains v '', Forwarded: '' then '', Forwarded: '' else '', Expanded: '')"

text \<open>The first occurrence of each entry, in order.\<close>

definition firstSeen :: "'a list \<Rightarrow> 'a list" where
  "firstSeen xs = rev (remdups (rev xs))"

section \<open>Proofs\<close>

subsection \<open>Lower-casing\<close>

lemma lowerByte_idem: "lowerByte (lowerByte c) = lowerByte c"
  by (simp add: lowerByte_def Let_def)

lemma lowerByte_ascii: "of_char c < (128::nat) \<Longrightarrow> of_char (lowerByte c) < (128::nat)"
  by (simp add: lowerByte_def Let_def)

lemma isASCII_lower: "isASCII s \<Longrightarrow> isASCII (map lowerByte s)"
  by (induction s) (simp_all add: isASCII_def lowerByte_ascii)

lemma ToLower_ascii_idem: "isASCII s \<Longrightarrow> ToLower U (ToLower U s) = ToLower U s"
  by (simp add: ToLower_def isASCII_lower lowerByte_idem)

lemma ToLower_asciiTable: "ToLower asciiTable s = map lowerByte s"
  by (simp add: ToLower_def asciiTable_def)

lemma stable_asciiTable: "stable asciiTable"
  by (simp add: stable_def ToLower_asciiTable lowerByte_idem)

subsection \<open>\<open>appendUniq\<close>\<close>

lemma found_set: "found m start = (m \<in> set start)"
  by (induction start) auto

lemma appendUniq_snoc:
  "appendUniq U start (ms @ [m]) =
     (if ToLower U m \<in> set (appendUniq U start ms) then appendUniq U start ms
      else appendUniq U start ms @ [ToLower U m])"
  by (induction ms arbitrary: start) (simp_all add: Let_def found_set)

lemma set_appendUniq: "set (appendUniq U start ms) = set start \<union> ToLower U ` set ms"
  by (induction ms arbitrary: start) (auto simp: Let_def found_set)

lemma distinct_appendUniq: "distinct start \<Longrightarrow> distinct (appendUniq U start ms)"
  by (induction ms arbitrary: start) (simp_all add: Let_def found_set)

lemma appendUniq_firstSeen:
  "appendUniq U [] ms = firstSeen (map (ToLower U) ms)"
proof (induction ms rule: rev_induct)
  case Nil
  show ?case by (simp add: firstSeen_def)
next
  case (snoc m ms)
  have "set (appendUniq U [] ms) = ToLower U ` set ms"
    by (simp add: set_appendUniq)
  with snoc show ?case
    by (simp add: appendUniq_snoc firstSeen_def)
qed

lemma length_firstSeen: "length (firstSeen xs) = card (set xs)"
proof -
  have "length (remdups (rev xs)) = card (set (rev xs))"
    by (rule length_remdups_card_conv)
  then show ?thesis by (simp add: firstSeen_def)
qed

lemma appendUniq_extends:
  "\<exists>ext. appendUniq U start ms = start @ ext \<and> set ext \<subseteq> ToLower U ` set ms"
proof (induction ms rule: rev_induct)
  case Nil
  show ?case by simp
next
  case (snoc m ms)
  then obtain ext where ext: "appendUniq U start ms = start @ ext" "set ext \<subseteq> ToLower U ` set ms"
    by blast
  show ?case
  proof (cases "ToLower U m \<in> set (appendUniq U start ms)")
    case True
    with ext show ?thesis by (auto simp: appendUniq_snoc)
  next
    case False
    with ext have "appendUniq U start (ms @ [m]) = start @ (ext @ [ToLower U m])"
      by (simp add: appendUniq_snoc)
    moreover have "set (ext @ [ToLower U m]) \<subseteq> ToLower U ` set (ms @ [m])"
      using ext(2) by auto
    ultimately show ?thesis by blast
  qed
qed

lemma appendUniq_absorbs:
  "\<forall>m \<in> set ms. ToLower U m \<in> set start \<Longrightarrow> appendUniq U start ms = start"
  by (induction ms) (simp_all add: Let_def found_set)

lemma normalized_appendUniq:
  assumes "stable U" "normalized U start"
  shows "normalized U (appendUniq U start ms)"
proof -
  have "distinct (appendUniq U start ms)"
    using assms(2) by (simp add: normalized_def distinct_appendUniq)
  moreover have "\<forall>e \<in> set (appendUniq U start ms). ToLower U e = e"
    using assms by (auto simp: set_appendUniq normalized_def stable_def list_all_iff)
  ultimately show ?thesis
    by (simp add: normalized_def list_all_iff)
qed

lemma normalized_nodupCI: "normalized U xs \<Longrightarrow> nodupCI U xs"
proof -
  assume n: "normalized U xs"
  then have "map (ToLower U) xs = xs"
    by (simp add: normalized_def list_all_iff map_idI)
  with n show ?thesis by (simp add: nodupCI_def normalized_def)
qed

lemmas lower_eval = ToLower_def isASCII_def lowerByte_def char_of_eq_iff

lemma lower_samples:
  "ToLower U ''a@x.com'' = ''a@x.com''" "ToLower U ''b@x.com'' = ''b@x.com''"
  "ToLower U ''A@x.com'' = ''a@x.com''" "ToLower U ''a@X.com'' = ''a@x.com''"
  by (simp_all add: lower_eval)

text \<open>
  C7: for every existing sequence and every candidate list, \<open>appendUniq\<close> lower-cases each
  candidate and appends it only when no element of the result built so far is equal to
  it, in the order of the candidates. Applied to the empty sequence, the result is the
  lower-cased candidates with only the first occurrence of each kept, so it has as many
  entries as there are candidates distinct after lower-casing.
\<close>

theorem appendUniq_first_seen:
  "appendUniq U start [] = start \<and>
   appendUniq U start (ms @ [m]) =
     (if ToLower U m \<in> set (appendUniq U start ms) then appendUniq U start ms
      else appendUniq U start ms @ [ToLower U m]) \<and>
   appendUniq U [] ms = firstSeen (map (ToLower U) ms) \<and>
   length (appendUniq U [] ms) = card (ToLower U ` set ms) \<and>
   distinct (appendUniq U [] ms)"
proof -
  have "length (appendUniq U [] ms) = card (ToLower U ` set ms)"
    by (simp add: appendUniq_firstSeen length_firstSeen)
  moreover have "distinct (appendUniq U [] ms)"
    by (simp add: distinct_appendUniq)
  ultimately show ?thesis
    using appendUniq_snoc[of U start ms m] appendUniq_firstSeen[of U ms] by simp
qed

theorem appendUniq_first_seen_witness:
  "appendUniq asciiTable [] ([''A@x.com'', ''b@x.com''] @ [''a@X.com'']) = [''a@x.com'', ''b@x.com''] \<and>
   length (appendUniq asciiTable [] [''A@x.com'', ''b@x.com'', ''a@X.com'']) = 2"
proof -
  have two: "appendUniq asciiTable [] [''A@x.com'', ''b@x.com''] = [''a@x.com'', ''b@x.com'']"
    by (simp add: lower_samples Let_def)
  have three: "firstSeen (map (ToLower asciiTable) [''A@x.com'', ''b@x.com'', ''a@X.com''])
      = [''a@x.com'', ''b@x.com'']"
    by (simp add: lower_samples firstSeen_def)
  show ?thesis
    using appendUniq_first_seen[of asciiTable "[]" "[''A@x.com'', ''b@x.com'']" "''a@X.com''"]
      appendUniq_first_seen[of asciiTable "[]" "[''A@x.com'', ''b@x.com'', ''a@X.com'']" "[]"]
    by (simp add: two three lower_samples del: appendUniq.simps)
qed

text \<open>
  C9: normalizing a normalized sequence (entries lower-cased and pairwise distinct)
  against itself returns it unchanged.
\<close>

theorem appendUniq_idempotent:
  "normalized U s \<Longrightarrow> appendUniq U s s = s"
  by (rule appendUniq_absorbs) (simp add: normalized_def list_all_iff)

theorem appendUniq_idempotent_witness:
  "normalized asciiTable [''a@x.com'', ''b@x.com''] \<and>
   appendUniq asciiTable [''a@x.com'', ''b@x.com''] [''a@x.com'', ''b@x.com'']
     = [''a@x.com'', ''b@x.com'']"
proof -
  have n: "normalized asciiTable [''a@x.com'', ''b@x.com'']"
    by (simp add: normalized_def lower_samples)
  show ?thesis
    using n appendUniq_idempotent[OF n] by simp
qed

text \<open>
  C10: the result of \<open>appendUniq start more\<close> begins with \<open>start\<close> itself, entry by entry
  and in the same order; what follows are lower-cased candidates.
\<close>

theorem appendUniq_keeps_start:
  "take (length start) (appendUniq U start ms) = start \<and>
   set (drop (length start) (appendUniq U start ms)) \<subseteq> ToLower U ` set ms"
proof -
  obtain ext where "appendUniq U start ms = start @ ext" "set ext \<subseteq> ToLower U ` set ms"
    using appendUniq_extends by blast
  then show ?thesis by simp
qed

theorem appendUniq_keeps_start_witness:
  "appendUniq asciiTable [''B@x.com'', ''B@x.com''] [''b@x.com'']
     = [''B@x.com'', ''B@x.com'', ''b@x.com''] \<and>
   take 2 (appendUniq asciiTable [''B@x.com'', ''B@x.com''] [''b@x.com''])
     = [''B@x.com'', ''B@x.com'']"
proof -
  have run: "appendUniq asciiTable [''B@x.com'', ''B@x.com''] [''b@x.com'']
      = [''B@x.com'', ''B@x.com'', ''b@x.com'']"
    by (simp add: lower_samples Let_def)
  show ?thesis
    using appendUniq_keeps_start[of "[''B@x.com'', ''B@x.com'']" asciiTable "[''b@x.com'']"]
    by (simp add: run numeral_2_eq_2 del: appendUniq.simps)
qed

end
